theory Spec2Isabelle
  imports Complex_Main
begin

section \<open>JavaScript values\<close>

text \<open>
  The shape arithmetic of \<^verbatim>\<open>conv.ts\<close> runs on JavaScript numbers that hold integers.
  A \<open>number\<close> is \<open>Some k\<close> for the integer \<open>k\<close>, and \<open>None\<close> for every value that is
  not a finite integer: \<^verbatim>\<open>undefined\<close> (an array read past the end), \<^verbatim>\<open>NaN\<close> and
  \<^verbatim>\<open>Infinity\<close>. Arithmetic on \<open>None\<close> stays \<open>None\<close>, as it does on \<^verbatim>\<open>NaN\<close>; the
  only divisions of the source are the last operation before the value is stored, so
  an infinite quotient never flows back into a finite one.

  The numbers of JavaScript are doubles. A double holds every integer of magnitude
  below \<open>2^53\<close> exactly (\<open>safe_integer\<close>, the \<^verbatim>\<open>Number.isSafeInteger\<close> of JavaScript), and
  an operation on doubles is correctly rounded: a sum, difference or product of safe
  integers that is a safe integer is computed exactly, and \<^verbatim>\<open>Math.floor\<close> and
  \<^verbatim>\<open>Math.ceil\<close> of the quotient of two safe integers are the floor and the ceiling of
  the exact quotient. The functions below compute on unbounded integers, so they are
  the source only while every input and every intermediate result is a safe integer;
  beyond that the source rounds and they do not. The theorems about \<open>calcOutputShape\<close>
  and \<open>calcIm2ColDims\<close> carry this bound as a hypothesis.
\<close>

type_synonym number = "int option"

definition js_get :: "'a list \<Rightarrow> nat \<Rightarrow> 'a option" where
  \<comment> \<open>\<^verbatim>\<open>xs[i]\<close>: \<^verbatim>\<open>undefined\<close> past the end\<close>
  "js_get xs i = (if i < length xs then Some (xs ! i) else None)"

definition js_get_num :: "number list \<Rightarrow> nat \<Rightarrow> number" where
  \<comment> \<open>\<^verbatim>\<open>xs[i]\<close> on an array of numbers\<close>
  "js_get_num xs i = (if i < length xs then xs ! i else None)"

definition num2 :: "('a \<Rightarrow> 'a \<Rightarrow> 'a) \<Rightarrow> 'a option \<Rightarrow> 'a option \<Rightarrow> 'a option" where
  "num2 f a b =
     (case a of None \<Rightarrow> None
      | Some x \<Rightarrow> (case b of None \<Rightarrow> None | Some y \<Rightarrow> Some (f x y)))"

definition n_add :: "'a::plus option \<Rightarrow> 'a option \<Rightarrow> 'a option" where
  "n_add a b = num2 (+) a b"

definition n_sub :: "number \<Rightarrow> number \<Rightarrow> number" where
  "n_sub a b = num2 (-) a b"

definition n_mul :: "'a::times option \<Rightarrow> 'a option \<Rightarrow> 'a option" where
  "n_mul a b = num2 (*) a b"

definition floor_div :: "number \<Rightarrow> number \<Rightarrow> number" where
  \<comment> \<open>\<^verbatim>\<open>Math.floor(a / b)\<close>; a zero divisor gives \<^verbatim>\<open>Infinity\<close> or \<^verbatim>\<open>NaN\<close>\<close>
  "floor_div a b =
     (case a of None \<Rightarrow> None
      | Some x \<Rightarrow> (case b of None \<Rightarrow> None
                   | Some y \<Rightarrow> if y = 0 then None else Some (x div y)))"

definition ceil_div :: "number \<Rightarrow> number \<Rightarrow> number" where
  \<comment> \<open>\<^verbatim>\<open>Math.ceil(a / b)\<close>; a zero divisor gives \<^verbatim>\<open>Infinity\<close> or \<^verbatim>\<open>NaN\<close>\<close>
  "ceil_div a b =
     (case a of None \<Rightarrow> None
      | Some x \<Rightarrow> (case b of None \<Rightarrow> None
                   | Some y \<Rightarrow> if y = 0 then None else Some (- ((- x) div y))))"

definition mapi :: "('a \<Rightarrow> nat \<Rightarrow> 'b) \<Rightarrow> 'a list \<Rightarrow> 'b list" where
  \<comment> \<open>\<^verbatim>\<open>xs.map((v, i) => f(v, i))\<close>\<close>
  "mapi f xs = map (\<lambda>i. f (xs ! i) i) [0..<length xs]"

definition safe_integer :: "int \<Rightarrow> bool" where
  \<comment> \<open>\<^verbatim>\<open>Number.isSafeInteger\<close>: an integer that a double holds exactly\<close>
  "safe_integer x \<longleftrightarrow> \<bar>x\<bar> < 2 ^ 53"

section \<open>WebGLConv: shape derivation\<close>

definition calcOutputShape ::
  "int list \<Rightarrow> int list \<Rightarrow> int list \<Rightarrow> int list \<Rightarrow> int list \<Rightarrow> number list" where
  "calcOutputShape inputShape kernelShape dilations adjustPads strides =
     (let batchSize = js_get inputShape 0;
          inputSpatialShape = drop 2 inputShape;
          spatialRank = length inputSpatialShape;
          outChannels = js_get kernelShape 0;
          kernelSpatialShape = drop 2 kernelShape;
          dilatedKernelShape =
            mapi (\<lambda>v i. n_add (Some v)
                    (n_mul (n_sub (Some v) (Some 1)) (n_sub (js_get dilations i) (Some 1))))
              kernelSpatialShape;
          inputSpatialShapeWithPad =
            mapi (\<lambda>v i. n_add (n_add (Some v) (js_get adjustPads i))
                    (js_get adjustPads (i + spatialRank)))
              inputSpatialShape;
          outputSpatialShape =
            mapi (\<lambda>v i. floor_div
                    (n_add (n_sub v (js_get_num dilatedKernelShape i)) (js_get strides i))
                    (js_get strides i))
              inputSpatialShapeWithPad
      in [batchSize, outChannels] @ outputSpatialShape)"

text \<open>
  The intermediate results of \<open>calcOutputShape\<close> on one spatial axis, in the order the
  source computes them, for the extent \<open>s\<close>, the kernel extent \<open>k\<close>, the dilation \<open>d\<close>,
  the two pads \<open>pb\<close> and \<open>pe\<close> and the stride \<open>t\<close>: all of them safe integers.
\<close>

definition axis_exact :: "int \<Rightarrow> int \<Rightarrow> int \<Rightarrow> int \<Rightarrow> int \<Rightarrow> int \<Rightarrow> bool" where
  "axis_exact s k d pb pe t \<longleftrightarrow>
     safe_integer (k - 1) \<and> safe_integer (d - 1) \<and> safe_integer ((k - 1) * (d - 1))
     \<and> safe_integer (k + (k - 1) * (d - 1))
     \<and> safe_integer (s + pb) \<and> safe_integer (s + pb + pe)
     \<and> safe_integer (s + pb + pe - (k + (k - 1) * (d - 1)))
     \<and> safe_integer (s + pb + pe - (k + (k - 1) * (d - 1)) + t)"

definition calcIm2ColDims :: "int list \<Rightarrow> int list \<Rightarrow> int list \<Rightarrow> int \<Rightarrow> number list" where
  "calcIm2ColDims inputShape kernelShape outputShape channels =
     [js_get outputShape 0, js_get outputShape 2, js_get outputShape 3,
      ceil_div (n_mul (n_mul (js_get inputShape 1) (js_get kernelShape 2)) (js_get kernelShape 3))
        (Some channels)]"

definition calcSharedDimReadSize :: "nat \<Rightarrow> nat" where
  \<comment> \<open>the shared dimension is an extent of a texture layout, a natural number\<close>
  "calcSharedDimReadSize sharedDim =
     (let preferredBatchSize = 16
      in if sharedDim < preferredBatchSize \<or> sharedDim mod preferredBatchSize \<noteq> 0
         then sharedDim else preferredBatchSize)"

text \<open>
  What the source can raise, and what the shader model reports where GLSL leaves the
  result undefined.
\<close>

datatype error = TypeError | RangeError | DivisionByZero | OutOfRangeRead

section \<open>Flatten: input validation\<close>

text \<open>
  \<^verbatim>\<open>checkInputs\<close> of \<^verbatim>\<open>flatten.ts\<close>. An absent \<^verbatim>\<open>inputs\<close> is \<open>None\<close>; the element type of
  a tensor is the string the source compares with \<^verbatim>\<open>'string'\<close>. Reading a field of
  \<^verbatim>\<open>inputs[0]\<close> when there is no such element is the \<^verbatim>\<open>TypeError\<close> of JavaScript.
\<close>

record tensor =
  dims :: "int list"
  type :: string

definition checkInputTypes :: "tensor list \<Rightarrow> error + bool" where
  "checkInputTypes inputs =
     (case js_get inputs 0 of
        None \<Rightarrow> Inl TypeError
      | Some t \<Rightarrow> if type t = ''string'' then Inr False else Inr True)"

definition checkInputs :: "int \<Rightarrow> tensor list option \<Rightarrow> error + bool" where
  "checkInputs axis inputs =
     (case inputs of
        None \<Rightarrow> Inr False
      | Some ins \<Rightarrow>
          if length ins \<noteq> 1 then Inr False
          else (case js_get ins 0 of
                  None \<Rightarrow> Inl TypeError
                | Some t \<Rightarrow>
                    if length (dims t) = 0 then Inr False
                    else if axis < 0 \<or> axis > int (length (dims t)) then Inr False
                    else checkInputTypes ins))"

section \<open>WebGLConv.run: building the program artifacts\<close>

text \<open>
  The collaborators of \<^verbatim>\<open>run\<close> that are not part of \<^verbatim>\<open>conv.ts\<close> are parameters: the two
  program-info constructors (they call the inference handler's layout functions),
  \<^verbatim>\<open>programManager.build\<close>, and \<open>execute\<close> for lines 26 to 29 of \<^verbatim>\<open>run\<close> (run-data
  preparation, the two \<^verbatim>\<open>programManager.run\<close> calls and \<^verbatim>\<open>getTensor\<close>). Each may throw.
  \<^verbatim>\<open>createProgramInfos\<close> also completes the kernel shape and the pads of the instance;
  these attributes are not part of the state below.
\<close>

record ('inp, 'pi, 'art, 'out) collaborators =
  createIm2ColProgramInfo :: "'inp \<Rightarrow> error + 'pi"
  createDotProductProgramInfo :: "'pi \<Rightarrow> 'inp \<Rightarrow> error + 'pi"
  build :: "'pi \<Rightarrow> error + 'art"
  execute :: "'art list \<Rightarrow> 'inp \<Rightarrow> error + 'out"

text \<open>
  The state a call of \<^verbatim>\<open>run\<close> can change: the \<^verbatim>\<open>artifacts\<close> field of the operator
  instance (\<open>None\<close> while it is \<^verbatim>\<open>undefined\<close>) and the log of the program infos handed
  to \<^verbatim>\<open>programManager.build\<close>. An exception leaves the state as it was when thrown, so
  \<open>run\<close> returns the state beside the result.
\<close>

record ('pi, 'art) conv_state =
  artifacts :: "'art list option"
  builds :: "'pi list"

definition createProgramInfos ::
  "('inp, 'pi, 'art, 'out) collaborators \<Rightarrow> 'inp \<Rightarrow> error + 'pi list" where
  "createProgramInfos env inputs =
     (case createIm2ColProgramInfo env inputs of
        Inl e \<Rightarrow> Inl e
      | Inr im2colProgramInfo \<Rightarrow>
          (case createDotProductProgramInfo env im2colProgramInfo inputs of
             Inl e \<Rightarrow> Inl e
           | Inr dotProductProgramInfo \<Rightarrow> Inr [im2colProgramInfo, dotProductProgramInfo]))"

fun build_loop ::
  "('inp, 'pi, 'art, 'out) collaborators \<Rightarrow> 'pi list \<Rightarrow> ('pi, 'art) conv_state
     \<Rightarrow> error option \<times> ('pi, 'art) conv_state" where
  "build_loop env [] s = (None, s)"
| "build_loop env (p # ps) s =
     (let s1 = s\<lparr>builds := builds s @ [p]\<rparr>
      in case build env p of
           Inl e \<Rightarrow> (Some e, s1)
         | Inr artifact \<Rightarrow>
             build_loop env ps
               (s1\<lparr>artifacts := map_option (\<lambda>as. as @ [artifact]) (artifacts s1)\<rparr>))"

definition run ::
  "('inp, 'pi, 'art, 'out) collaborators \<Rightarrow> ('pi, 'art) conv_state \<Rightarrow> 'inp
     \<Rightarrow> (error + 'out) \<times> ('pi, 'art) conv_state" where
  "run env s inputs =
     (let (thrown, s1) =
            (if artifacts s = None then
               (let s0 = s\<lparr>artifacts := Some []\<rparr>
                in case createProgramInfos env inputs of
                     Inl e \<Rightarrow> (Some e, s0)
                   | Inr programInfos \<Rightarrow> build_loop env programInfos s0)
             else (None, s))
      in case thrown of
           Some e \<Rightarrow> (Inl e, s1)
         | None \<Rightarrow>
             (case artifacts s1 of
                None \<Rightarrow> (Inl TypeError, s1)
              | Some as \<Rightarrow> (execute env as inputs, s1)))"

text \<open>A sequence of calls on one instance; the state after the last.\<close>

fun runs ::
  "('inp, 'pi, 'art, 'out) collaborators \<Rightarrow> ('pi, 'art) conv_state \<Rightarrow> 'inp list
     \<Rightarrow> ('pi, 'art) conv_state" where
  "runs env s [] = s"
| "runs env s (i # rest) = runs env (snd (run env s i)) rest"

text \<open>Collaborators that never throw, for a concrete run.\<close>

definition run_demo :: "(nat, string, string, nat) collaborators" where
  "run_demo = \<lparr>createIm2ColProgramInfo = (\<lambda>n. Inr ''im2col''),
           createDotProductProgramInfo = (\<lambda>p n. Inr ''dot''),
           build = (\<lambda>p. Inr (''built '' @ p)),
           execute = (\<lambda>as n. if length as = 2 then Inr (n + 1) else Inl TypeError)\<rparr>"

section \<open>WebGLConv: kernel repacking\<close>















section \<open>Pass 1: the im2col shader\<close>

text \<open>
  The body of the fragment shader that \<^verbatim>\<open>createIm2ColProgramInfo\<close> generates, as a
  function of the constants it substitutes into the source. Extents, output indices
  and the patch index are natural numbers; strides, dilations, pads and the input
  coordinates derived from them are integers. \<open>XN\<close> is \<^verbatim>\<open>xshape[0]\<close>: not a constant
  of the shader, it bounds the batch coordinate of a read. GLSL gives no meaning to a
  division by 0 and none to a texture read outside the tensor; the model returns
  \<open>DivisionByZero\<close> and \<open>OutOfRangeRead\<close> there, so that a result \<open>Inr v\<close> says that
  neither happened. The input tensor is the function \<open>X\<close> from a coordinate list to the
  element, the accessor \<^verbatim>\<open>_X\<close> of the shader library.
\<close>

record im2col_consts =
  XN :: nat
  XC :: nat
  XH :: nat
  XW :: nat
  KH :: nat
  KW :: nat
  dilationH :: int
  dilationW :: int
  strideH :: int
  strideW :: int
  padH :: int
  padW :: int

definition KHKW :: "im2col_consts \<Rightarrow> nat" where
  "KHKW c = KH c * KW c"

definition XCKHKW :: "im2col_consts \<Rightarrow> nat" where
  "XCKHKW c = XC c * KHKW c"

definition outputChannels :: nat where
  "outputChannels = 4"

definition glsl_div :: "nat \<Rightarrow> nat \<Rightarrow> error + nat" where
  "glsl_div a b = (if b = 0 then Inl DivisionByZero else Inr (a div b))"

definition X_read :: "im2col_consts \<Rightarrow> (int list \<Rightarrow> 'a) \<Rightarrow> int list \<Rightarrow> error + 'a" where
  "X_read c X x =
     (case x of
        [x0, x1, x2, x3] \<Rightarrow>
          if 0 \<le> x0 \<and> x0 < int (XN c) \<and> 0 \<le> x1 \<and> x1 < int (XC c)
             \<and> 0 \<le> x2 \<and> x2 < int (XH c) \<and> 0 \<le> x3 \<and> x3 < int (XW c)
          then Inr (X x) else Inl OutOfRangeRead
      | _ \<Rightarrow> Inl OutOfRangeRead)"

text \<open>The body of the \<^verbatim>\<open>for\<close> loop, up to the increment of \<^verbatim>\<open>patch\<close>.\<close>

definition im2col_body ::
  "im2col_consts \<Rightarrow> (int list \<Rightarrow> 'a) \<Rightarrow> int \<Rightarrow> int \<Rightarrow> int \<Rightarrow> nat \<Rightarrow> nat \<Rightarrow> 'a list
     \<Rightarrow> error + 'a list" where
  "im2col_body c X b oh ow i patch v =
     (if patch < XCKHKW c then
        (case glsl_div patch (KHKW c) of
           Inl e \<Rightarrow> Inl e
         | Inr patchC \<Rightarrow>
             (case glsl_div (patch - patchC * KHKW c) (KW c) of
                Inl e \<Rightarrow> Inl e
              | Inr patchH \<Rightarrow>
                  (let patchW = (patch - patchC * KHKW c) - patchH * KW c;
                       xh2 = oh + int patchH * dilationH c;
                       xw2 = ow + int patchW * dilationW c;
                       x = [b, int patchC, xh2, xw2]
                   in if xh2 \<ge> 0 \<and> xh2 < int (XH c) \<and> xw2 \<ge> 0 \<and> xw2 < int (XW c)
                      then (case X_read c X x of
                              Inl e \<Rightarrow> Inl e
                            | Inr val \<Rightarrow> Inr (v[i := val]))
                      else Inr v)))
      else Inr v)"

function im2col_loop ::
  "im2col_consts \<Rightarrow> (int list \<Rightarrow> 'a) \<Rightarrow> int \<Rightarrow> int \<Rightarrow> int \<Rightarrow> nat \<Rightarrow> nat \<times> 'a list
     \<Rightarrow> error + 'a list" where
  "im2col_loop c X b oh ow i (patch, v) =
     (if i < outputChannels then
        (case im2col_body c X b oh ow i patch v of
           Inl e \<Rightarrow> Inl e
         | Inr v' \<Rightarrow> im2col_loop c X b oh ow (i + 1) (patch + 1, v'))
      else Inr v)"
  by pat_completeness auto
termination
  by (relation "measure (\<lambda>(c, X, b, oh, ow, i, pv). outputChannels - i)") auto

declare im2col_loop.simps [simp del]

definition im2col_process ::
  "im2col_consts \<Rightarrow> (int list \<Rightarrow> 'a::zero) \<Rightarrow> nat \<times> nat \<times> nat \<times> nat \<Rightarrow> error + 'a list" where
  "im2col_process c X indices =
     (case indices of
        (i0, i1, i2, i3) \<Rightarrow>
          (let b = int i0;
               oh = int i1 * strideH c - padH c;
               ow = int i2 * strideW c - padW c;
               patch = i3 * outputChannels;
               v = replicate 4 0
           in im2col_loop c X b oh ow 0 (patch, v)))"

text \<open>
  The value the loop body stores in a channel whose patch index is \<open>patch\<close>, or \<open>dflt\<close>
  where it stores nothing; the proofs about \<open>im2col_loop\<close> are stated with it.
\<close>

definition im2col_texel ::
  "im2col_consts \<Rightarrow> (int list \<Rightarrow> 'a) \<Rightarrow> int \<Rightarrow> int \<Rightarrow> int \<Rightarrow> nat \<Rightarrow> 'a \<Rightarrow> 'a" where
  "im2col_texel c X b oh ow patch dflt =
     (let patchC = patch div (KH c * KW c);
          patchH = (patch mod (KH c * KW c)) div KW c;
          patchW = (patch mod (KH c * KW c)) mod KW c;
          xh2 = oh + int patchH * dilationH c;
          xw2 = ow + int patchW * dilationW c
      in if patch < XC c * (KH c * KW c)
            \<and> 0 \<le> xh2 \<and> xh2 < int (XH c) \<and> 0 \<le> xw2 \<and> xw2 < int (XW c)
         then X [b, int patchC, xh2, xw2] else dflt)"

text \<open>A 3 by 3 input with one channel, a 2 by 2 kernel and a pad of 1, for a concrete run.\<close>

definition im2col_demo :: im2col_consts where
  "im2col_demo = \<lparr>XN = 1, XC = 1, XH = 3, XW = 3, KH = 2, KW = 2, dilationH = 1, dilationW = 1,
         strideH = 1, strideW = 1, padH = 1, padW = 1\<rparr>"

section \<open>Pass 2: the dot-product shader and its draw loop\<close>

text \<open>
  The claim about the chunked reduction is one of exact arithmetic, so a texel is four
  rationals. A texture is read through \<^verbatim>\<open>offsetToCoords\<close> and \<^verbatim>\<open>texture2D\<close>, which belong
  to the shader library; their composition is a function from the linear texel
  offset to the texel. \<open>B\<close> is the accessor of the bias tensor, present when the
  operator has three inputs. The constants are the ones
  \<^verbatim>\<open>createDotProductProgramInfo\<close> substitutes into the source or stores in \<^verbatim>\<open>params\<close>.
  The variable \<^verbatim>\<open>sum\<close> of the shader is \<open>sumAcc\<close> here, since HOL has a constant of that
  name.
\<close>

type_synonym vec4 = "rat \<times> rat \<times> rat \<times> rat"

fun dot :: "vec4 \<Rightarrow> vec4 \<Rightarrow> rat" where
  "dot (a0, a1, a2, a3) (b0, b1, b2, b3) = a0 * b0 + a1 * b1 + a2 * b2 + a3 * b3"

record dot_consts =
  im2colStride0 :: nat
  im2colStride1 :: nat
  im2colStride2 :: nat
  kStride0 :: nat
  sharedDim :: nat
  sharedDimReadSize :: nat

record textures =
  Im2Col :: "nat \<Rightarrow> vec4"
  K :: "nat \<Rightarrow> vec4"
  B :: "(nat \<Rightarrow> rat) option"

function dot_loop ::
  "textures \<Rightarrow> nat \<Rightarrow> nat \<Rightarrow> nat \<times> nat \<times> rat \<Rightarrow> rat" where
  "dot_loop t n i (im2colOffset, kernelOffset, sumAcc) =
     (if i < n then
        dot_loop t n (i + 1)
          (im2colOffset + 1, kernelOffset + 1,
           sumAcc + dot (Im2Col t im2colOffset) (K t kernelOffset))
      else sumAcc)"
  by pat_completeness auto
termination
  by (relation "measure (\<lambda>(t, n, i, st). n - i)") auto

declare dot_loop.simps [simp del]

definition initValue :: "textures \<Rightarrow> nat \<Rightarrow> rat" where
  \<comment> \<open>\<^verbatim>\<open>0.0\<close> with fewer than three inputs, \<^verbatim>\<open>_B(b)\<close> otherwise\<close>
  "initValue t b = (case B t of None \<Rightarrow> 0 | Some bias \<Rightarrow> bias b)"

definition dot_process ::
  "dot_consts \<Rightarrow> textures \<Rightarrow> nat \<Rightarrow> nat \<times> nat \<times> nat \<times> nat \<Rightarrow> rat" where
  "dot_process c t sharedDimOffset indices =
     (case indices of
        (i0, i1, i2, i3) \<Rightarrow>
          (let b = i1;
               im2colOffset = i0 * im2colStride0 c + i2 * im2colStride1 c + i3 * im2colStride2 c
                                + sharedDimOffset;
               kernelOffset = i1 * kStride0 c + sharedDimOffset;
               sumAcc = (if sharedDimOffset = 0 then initValue t b else 0)
           in dot_loop t (sharedDimReadSize c) 0 (im2colOffset, kernelOffset, sumAcc)))"

text \<open>
  The part of the GL context the pass touches: whether blending is enabled, the
  uniform \<^verbatim>\<open>sharedDimOffset\<close>, and the output texture, one value for each output
  position.
\<close>

record gl_state =
  BLEND :: bool
  sharedDimOffset :: nat
  framebuffer :: "nat \<times> nat \<times> nat \<times> nat \<Rightarrow> rat"

definition preRun :: "gl_state \<Rightarrow> gl_state" where
  \<comment> \<open>\<^verbatim>\<open>gl.enable(gl.BLEND)\<close>, with the equation \<^verbatim>\<open>FUNC_ADD\<close> and the factors \<^verbatim>\<open>ONE\<close>, \<^verbatim>\<open>ONE\<close>\<close>
  "preRun s = s\<lparr>BLEND := True\<rparr>"

definition postRun :: "gl_state \<Rightarrow> gl_state" where
  "postRun s = s\<lparr>BLEND := False\<rparr>"

text \<open>
  Modelled from the spec: \<^verbatim>\<open>glContext.draw\<close> belongs to the graphics-context wrapper,
  which is not among the sources. One draw call runs the fragment program at every
  output position; under additive blending it adds the result to the existing
  contents of the target, and without blending it replaces them.
\<close>

definition gl_draw :: "dot_consts \<Rightarrow> textures \<Rightarrow> gl_state \<Rightarrow> gl_state" where
  "gl_draw c t s =
     s\<lparr>framebuffer :=
         (\<lambda>indices. if BLEND s
                     then dot_process c t (sharedDimOffset s) indices + framebuffer s indices
                     else dot_process c t (sharedDimOffset s) indices)\<rparr>"

text \<open>
  The \<^verbatim>\<open>for\<close> loop of the \<^verbatim>\<open>draw\<close> hook. With a read size of 0 and a shared dimension
  above 0 it never ends; then the result is \<open>None\<close>.
\<close>

partial_function (option) draw_loop ::
  "dot_consts \<Rightarrow> textures \<Rightarrow> nat \<Rightarrow> gl_state \<Rightarrow> gl_state option" where
  "draw_loop c t k s =
     (if k < sharedDim c then
        draw_loop c t (k + sharedDimReadSize c) (gl_draw c t (s\<lparr>sharedDimOffset := k\<rparr>))
      else Some s)"

definition draw :: "dot_consts \<Rightarrow> textures \<Rightarrow> gl_state \<Rightarrow> gl_state option" where
  "draw c t s = draw_loop c t 0 s"

text \<open>
  The term of the reduction at position \<open>i\<close> of the shared dimension, for one output
  position; the proofs about the draw loop are stated with it.
\<close>

definition term_at :: "dot_consts \<Rightarrow> textures \<Rightarrow> nat \<times> nat \<times> nat \<times> nat \<Rightarrow> nat \<Rightarrow> rat" where
  "term_at c t indices i =
     (case indices of
        (i0, i1, i2, i3) \<Rightarrow>
          dot (Im2Col t (i0 * im2colStride0 c + i2 * im2colStride1 c + i3 * im2colStride2 c + i))
              (K t (i1 * kStride0 c + i)))"

text \<open>Constants, textures and a cleared context, for concrete runs.\<close>

definition dot_demo :: dot_consts where
  "dot_demo = \<lparr>im2colStride0 = 8, im2colStride1 = 8, im2colStride2 = 4, kStride0 = 4,
               sharedDim = 4, sharedDimReadSize = 2\<rparr>"

definition tex_demo :: textures where
  "tex_demo = \<lparr>Im2Col = (\<lambda>off. (of_nat off, 1, 0, 0)), K = (\<lambda>off. (1, of_nat off, 0, 0)),
               B = Some (\<lambda>b. 5)\<rparr>"

definition tex_ones :: textures where
  "tex_ones = \<lparr>Im2Col = (\<lambda>off. (1, 0, 0, 0)), K = (\<lambda>off. (1, 0, 0, 0)), B = None\<rparr>"

definition gl_demo :: gl_state where
  "gl_demo = \<lparr>BLEND = False, sharedDimOffset = 0, framebuffer = (\<lambda>indices. 0)\<rparr>"

section \<open>Properties\<close>

subsection \<open>Number helpers\<close>

lemma js_get_in [simp]: "i < length xs \<Longrightarrow> js_get xs i = Some (xs ! i)"
  by (simp add: js_get_def)

lemma js_get_num_in [simp]: "i < length xs \<Longrightarrow> js_get_num xs i = xs ! i"
  by (simp add: js_get_num_def)

lemma num2_Some [simp]: "num2 f (Some x) (Some y) = Some (f x y)"
  by (simp add: num2_def)

lemma floor_div_Some: "y \<noteq> 0 \<Longrightarrow> floor_div (Some x) (Some y) = Some (x div y)"
  by (simp add: floor_div_def)

lemma ceil_div_Some: "y \<noteq> 0 \<Longrightarrow> ceil_div (Some x) (Some y) = Some (- ((- x) div y))"
  by (simp add: ceil_div_def)

lemma int_div_is_floor: "(x :: int) div y = \<lfloor>real_of_int x / real_of_int y\<rfloor>"
  by (simp add: floor_divide_of_int_eq)

lemma neg_div_is_ceiling: "- ((- x :: int) div y) = \<lceil>real_of_int x / real_of_int y\<rceil>"
proof -
  have "(- x) div y = \<lfloor>real_of_int (- x) / real_of_int y\<rfloor>"
    by (rule int_div_is_floor)
  also have "\<dots> = \<lfloor>- (real_of_int x / real_of_int y)\<rfloor>"
    by simp
  finally show ?thesis
    by (simp add: ceiling_def)
qed

lemma length_mapi [simp]: "length (mapi f xs) = length xs"
  by (simp add: mapi_def)

lemma nth_mapi [simp]: "i < length xs \<Longrightarrow> mapi f xs ! i = f (xs ! i) i"
  by (simp add: mapi_def)

subsection \<open>calcSharedDimReadSize\<close>

lemma calcSharedDimReadSize_dvd: "calcSharedDimReadSize n dvd n"
  by (auto simp: calcSharedDimReadSize_def Let_def)

text \<open>
  Claim C6. For every shared dimension of at least 1, \<open>calcSharedDimReadSize\<close> returns
  the preferred chunk 16 when the dimension is at least 16 and a multiple of 16, and
  the dimension itself otherwise; the returned read size divides the dimension.
\<close>

theorem calcSharedDimReadSize_spec:
  assumes "1 \<le> n"
  shows "calcSharedDimReadSize n = (if 16 \<le> n \<and> n mod 16 = 0 then 16 else n)
         \<and> calcSharedDimReadSize n dvd n"
  by (auto simp: calcSharedDimReadSize_def Let_def)

theorem calcSharedDimReadSize_spec_witness:
  "calcSharedDimReadSize 16 = 16 \<and> 16 div calcSharedDimReadSize 16 = 1
   \<and> calcSharedDimReadSize 18 = 18 \<and> 18 div calcSharedDimReadSize 18 = 1
   \<and> calcSharedDimReadSize 32 = 16 \<and> 32 div calcSharedDimReadSize 32 = 2"
  using calcSharedDimReadSize_spec [of 16] calcSharedDimReadSize_spec [of 18]
    calcSharedDimReadSize_spec [of 32]
  by simp

subsection \<open>calcIm2ColDims\<close>

text \<open>
  Claim C7. For an input shape and a kernel shape and an output shape of rank 4 and a
  channel count other than 0, all of safe integers, with the products \<open>S[1]*Ks[2]\<close> and
  \<open>S[1]*Ks[2]*Ks[3]\<close> safe integers too (magnitude below \<open>2^53\<close>, where the doubles of the
  source are exact), \<open>calcIm2ColDims\<close> is
  \<open>[outShape[0], outShape[2], outShape[3], ceil(S[1]*Ks[2]*Ks[3] / c)]\<close>.
\<close>

theorem calcIm2ColDims_spec:
  assumes len: "2 \<le> length S" "4 \<le> length Ks" "4 \<le> length outShape" and c: "c \<noteq> 0"
    and safe_inputs: "\<forall>x \<in> set S \<union> set Ks \<union> set outShape \<union> {c}. safe_integer x"
    and safe_products: "safe_integer (S ! 1 * Ks ! 2) \<and> safe_integer (S ! 1 * Ks ! 2 * Ks ! 3)"
  shows "calcIm2ColDims S Ks outShape c =
           map Some [outShape ! 0, outShape ! 2, outShape ! 3,
                     \<lceil>real_of_int (S ! 1 * Ks ! 2 * Ks ! 3) / real_of_int c\<rceil>]"
  using len c
  by (auto simp: calcIm2ColDims_def js_get_def n_mul_def ceil_div_Some neg_div_is_ceiling)

theorem calcIm2ColDims_spec_witness:
  "calcIm2ColDims [1, 3, 5, 5] [2, 3, 3, 3] [1, 2, 3, 3] 4 = [Some 1, Some 3, Some 3, Some 7]"
proof -
  have v: "\<lceil>real_of_int (3 * 3 * 3) / real_of_int 4\<rceil> = (7 :: int)"
    by (simp add: ceiling_eq_iff)
  have si: "\<forall>x \<in> set [1, 3, 5, 5] \<union> set [2, 3, 3, 3] \<union> set [1, 2, 3, 3] \<union> {4 :: int}.
              safe_integer x"
    by (simp add: safe_integer_def)
  have sp: "safe_integer ([1, 3, 5, 5] ! 1 * [2, 3, 3, 3] ! 2)
              \<and> safe_integer ([1, 3, 5, 5] ! 1 * [2, 3, 3, 3] ! 2 * [2, 3, 3, 3] ! 3)"
    by (simp add: safe_integer_def)
  show ?thesis
    using calcIm2ColDims_spec [of "[1, 3, 5, 5]" "[2, 3, 3, 3]" "[1, 2, 3, 3]" 4, OF _ _ _ _ si sp] v
    by simp
qed

subsection \<open>calcOutputShape\<close>

lemma calcOutputShape_nth:
  assumes "length S \<le> length Ks" and "length S \<le> length D"
    and "2 * length S \<le> length P" and "length S \<le> length T"
    and "i < length S" and "T ! i \<noteq> 0"
  shows "calcOutputShape (batch # inC # S) (outC # kC # Ks) D P T ! (2 + i) =
         Some ((S ! i + P ! i + P ! (i + length S) - (Ks ! i + (Ks ! i - 1) * (D ! i - 1)) + T ! i)
                 div T ! i)"
  using assms
  by (simp add: calcOutputShape_def Let_def nth_append n_add_def n_sub_def n_mul_def floor_div_Some)

text \<open>
  Claim C1. For an input shape \<open>[batch, inC] @ S\<close>, a kernel shape \<open>[outC, kC] @ Ks\<close>,
  dilations \<open>D\<close>, pads \<open>P\<close> and strides \<open>T\<close> that cover every spatial axis, with no
  stride 0, every entry a safe integer and every intermediate result of every spatial
  axis a safe integer (magnitude below \<open>2^53\<close>, where the doubles of the source are
  exact), \<open>calcOutputShape\<close> returns \<open>[batch, outC] @ O\<close> where \<open>O[i]\<close> is the floor of
  \<open>(S[i] + P[i] + P[i + rank] - (Ks[i] + (Ks[i] - 1) * (D[i] - 1)) + T[i]) / T[i]\<close>.
\<close>

theorem calcOutputShape_spec:
  assumes len: "length S \<le> length Ks" "length S \<le> length D"
      "2 * length S \<le> length P" "length S \<le> length T"
    and stride: "\<forall>i<length S. T ! i \<noteq> 0"
    and safe_inputs:
      "\<forall>x \<in> set ([batch, inC] @ S) \<union> set ([outC, kC] @ Ks) \<union> set D \<union> set P \<union> set T.
         safe_integer x"
    and safe_intermediates:
      "\<forall>i<length S. axis_exact (S ! i) (Ks ! i) (D ! i) (P ! i) (P ! (i + length S)) (T ! i)"
  shows "calcOutputShape ([batch, inC] @ S) ([outC, kC] @ Ks) D P T =
         map Some ([batch, outC] @
           map (\<lambda>i. \<lfloor>real_of_int (S ! i + P ! i + P ! (i + length S)
                                    - (Ks ! i + (Ks ! i - 1) * (D ! i - 1)) + T ! i)
                       / real_of_int (T ! i)\<rfloor>) [0..<length S])"
proof (rule nth_equalityI)
  show "length (calcOutputShape ([batch, inC] @ S) ([outC, kC] @ Ks) D P T) =
        length (map Some ([batch, outC] @
           map (\<lambda>i. \<lfloor>real_of_int (S ! i + P ! i + P ! (i + length S)
                                    - (Ks ! i + (Ks ! i - 1) * (D ! i - 1)) + T ! i)
                       / real_of_int (T ! i)\<rfloor>) [0..<length S]))"
    by (simp add: calcOutputShape_def Let_def)
next
  fix j assume "j < length (calcOutputShape ([batch, inC] @ S) ([outC, kC] @ Ks) D P T)"
  then have j: "j < 2 + length S"
    by (simp add: calcOutputShape_def Let_def)
  consider "j = 0" | "j = 1" | i where "j = 2 + i" "i < length S"
    using j by atomize_elim presburger
  then show "calcOutputShape ([batch, inC] @ S) ([outC, kC] @ Ks) D P T ! j =
        map Some ([batch, outC] @
           map (\<lambda>i. \<lfloor>real_of_int (S ! i + P ! i + P ! (i + length S)
                                    - (Ks ! i + (Ks ! i - 1) * (D ! i - 1)) + T ! i)
                       / real_of_int (T ! i)\<rfloor>) [0..<length S]) ! j"
  proof cases
    case 1
    then show ?thesis by (simp add: calcOutputShape_def Let_def)
  next
    case 2
    then show ?thesis by (simp add: calcOutputShape_def Let_def)
  next
    case 3
    with len stride show ?thesis
      using calcOutputShape_nth [of S Ks D P T i batch inC outC kC]
      by (simp add: int_div_is_floor nth_append)
  qed
qed


theorem calcOutputShape_spec_witness:
  "calcOutputShape [1, 3, 5, 5] [2, 3, 3, 3] [1, 1] [1, 1, 1, 1] [2, 2] =
     [Some 1, Some 2, Some 3, Some 3]"
proof -
  have h: "\<forall>i<length [5, 5 :: int]. [2, 2 :: int] ! i \<noteq> 0"
    by (simp add: nth_Cons' )
  have si: "\<forall>x \<in> set ([1, 3] @ [5, 5]) \<union> set ([2, 3] @ [3, 3]) \<union> set [1, 1]
                  \<union> set [1, 1, 1, 1] \<union> set [2, 2 :: int]. safe_integer x"
    by (simp add: safe_integer_def)
  have sm: "\<forall>i<length [5, 5 :: int].
              axis_exact ([5, 5] ! i) ([3, 3] ! i) ([1, 1] ! i) ([1, 1, 1, 1] ! i)
                ([1, 1, 1, 1] ! (i + length [5, 5 :: int])) ([2, 2] ! i)"
    by (simp add: axis_exact_def safe_integer_def nth_Cons' )
  have u: "[0..<2] = [0, 1]"
    by (simp add: upt_rec)
  show ?thesis
    using calcOutputShape_spec [of "[5, 5]" "[3, 3]" "[1, 1]" "[1, 1, 1, 1]" "[2, 2]" 1 3 2 3,
        OF _ _ _ _ h si sm]
    by (simp add: u)
qed

subsection \<open>Flatten.checkInputs\<close>

text \<open>
  Claim C9. \<open>checkInputs\<close> never raises, and it returns true exactly for a single
  input that is not of string type, has rank at least 1, and whose rank bounds the
  axis: \<open>0 \<le> axis \<le> rank\<close>. In every other case (absent inputs, another arity, rank 0,
  axis out of range, string type) it returns false.
\<close>

theorem checkInputs_spec:
  "checkInputs axis inputs =
     Inr (\<exists>t. inputs = Some [t] \<and> dims t \<noteq> [] \<and> 0 \<le> axis \<and> axis \<le> int (length (dims t))
              \<and> type t \<noteq> ''string'')"
proof (cases inputs)
  case None
  then show ?thesis by (simp add: checkInputs_def)
next
  case (Some ins)
  show ?thesis
  proof (cases ins)
    case Nil
    with Some show ?thesis by (simp add: checkInputs_def)
  next
    case (Cons t rest)
    with Some show ?thesis
      by (cases rest) (auto simp: checkInputs_def checkInputTypes_def js_get_def)
  qed
qed

theorem checkInputs_spec_witness:
  "checkInputs 1 (Some [\<lparr>dims = [2, 3], type = ''float32''\<rparr>]) = Inr True
   \<and> checkInputs 2 (Some [\<lparr>dims = [2, 3], type = ''float32''\<rparr>]) = Inr True
   \<and> checkInputs 3 (Some [\<lparr>dims = [2, 3], type = ''float32''\<rparr>]) = Inr False
   \<and> checkInputs (- 1) (Some [\<lparr>dims = [2, 3], type = ''float32''\<rparr>]) = Inr False
   \<and> checkInputs 0 (Some [\<lparr>dims = [], type = ''float32''\<rparr>]) = Inr False
   \<and> checkInputs 1 (Some [\<lparr>dims = [2, 3], type = ''string''\<rparr>]) = Inr False
   \<and> checkInputs 1 (Some []) = Inr False
   \<and> checkInputs 1 None = Inr False"
  using checkInputs_spec [of 1 "Some [\<lparr>dims = [2, 3], type = ''float32''\<rparr>]"]
    checkInputs_spec [of 2 "Some [\<lparr>dims = [2, 3], type = ''float32''\<rparr>]"]
    checkInputs_spec [of 3 "Some [\<lparr>dims = [2, 3], type = ''float32''\<rparr>]"]
    checkInputs_spec [of "- 1" "Some [\<lparr>dims = [2, 3], type = ''float32''\<rparr>]"]
    checkInputs_spec [of 0 "Some [\<lparr>dims = [], type = ''float32''\<rparr>]"]
    checkInputs_spec [of 1 "Some [\<lparr>dims = [2, 3], type = ''string''\<rparr>]"]
    checkInputs_spec [of 1 "Some []"]
    checkInputs_spec [of 1 None]
  by simp

subsection \<open>WebGLConv.run\<close>

lemma run_built: "artifacts s = Some as \<Longrightarrow> run env s inputs = (execute env as inputs, s)"
  by (simp add: run_def)

lemma build_loop_artifacts:
  "artifacts s \<noteq> None \<Longrightarrow> artifacts (snd (build_loop env ps s)) \<noteq> None"
  by (induction ps arbitrary: s) (auto simp: Let_def split: sum.splits)

lemma build_loop_builds:
  "length (builds (snd (build_loop env ps s))) \<le> length (builds s) + length ps"
proof (induction ps arbitrary: s)
  case Nil
  show ?case by simp
next
  case (Cons p ps)
  show ?case
  proof (cases "build env p")
    case (Inl e)
    then show ?thesis by (simp add: Let_def)
  next
    case (Inr a)
    have "length (builds (snd (build_loop env ps
             (s\<lparr>builds := builds s @ [p], artifacts := map_option (\<lambda>as. as @ [a]) (artifacts s)\<rparr>))))
          \<le> length (builds s @ [p]) + length ps"
      using Cons.IH [of "s\<lparr>builds := builds s @ [p], artifacts := map_option (\<lambda>as. as @ [a]) (artifacts s)\<rparr>"]
      by simp
    with Inr show ?thesis by (simp add: Let_def)
  qed
qed

lemma createProgramInfos_length:
  "createProgramInfos env inputs = Inr ps \<Longrightarrow> length ps = 2"
  by (auto simp: createProgramInfos_def split: sum.splits)

lemma run_first_artifacts: "artifacts (snd (run env s inputs)) \<noteq> None"
proof (cases "artifacts s")
  case None
  show ?thesis
  proof (cases "createProgramInfos env inputs")
    case (Inl e)
    with None show ?thesis by (simp add: run_def)
  next
    case (Inr ps)
    have "artifacts (snd (build_loop env ps (s\<lparr>artifacts := Some []\<rparr>))) \<noteq> None"
      by (rule build_loop_artifacts) simp
    with None Inr show ?thesis
      by (auto simp: run_def Let_def split: prod.splits option.splits)
  qed
next
  case (Some as)
  then show ?thesis by (simp add: run_built)
qed

lemma run_first_builds:
  "length (builds (snd (run env s inputs))) \<le> length (builds s) + 2"
proof (cases "artifacts s")
  case None
  show ?thesis
  proof (cases "createProgramInfos env inputs")
    case (Inl e)
    with None show ?thesis by (simp add: run_def)
  next
    case (Inr ps)
    have "length (builds (snd (build_loop env ps (s\<lparr>artifacts := Some []\<rparr>))))
            \<le> length (builds (s\<lparr>artifacts := Some []\<rparr>)) + length ps"
      by (rule build_loop_builds)
    with None Inr createProgramInfos_length [OF Inr] show ?thesis
      by (auto simp: run_def Let_def split: prod.splits option.splits)
  qed
next
  case (Some as)
  then show ?thesis by (simp add: run_built)
qed

lemma runs_built: "artifacts s \<noteq> None \<Longrightarrow> runs env s rest = s"
  by (induction rest) (auto simp: run_built)

lemma run_first_success:
  assumes "artifacts s = None"
    and "createIm2ColProgramInfo env inputs = Inr p"
    and "createDotProductProgramInfo env p inputs = Inr q"
    and "build env p = Inr a" and "build env q = Inr b"
  shows "run env s inputs =
           (execute env [a, b] inputs, s\<lparr>artifacts := Some [a, b], builds := builds s @ [p, q]\<rparr>)"
  using assms by (simp add: run_def createProgramInfos_def Let_def)

text \<open>
  Claim C8. The program artifacts are built at most once per instance. A first call
  of \<open>run\<close> (the \<open>artifacts\<close> field absent) leaves the field present, after at most two
  calls of \<open>build\<close>, and no later call of a sequence on the same instance changes the
  state; when neither the program-info constructors nor \<open>build\<close> throw, the field
  then holds the two artifacts, one per pass. A call that finds the field present
  builds nothing: it runs \<open>execute\<close> on the stored artifacts and leaves the state as
  it was.
\<close>

theorem run_builds_once:
  "(artifacts s = None \<longrightarrow>
      artifacts (snd (run env s inputs)) \<noteq> None
      \<and> length (builds (snd (run env s inputs))) \<le> length (builds s) + 2
      \<and> runs env s (inputs # rest) = snd (run env s inputs))
   \<and> (artifacts s = None \<and> createIm2ColProgramInfo env inputs = Inr p
        \<and> createDotProductProgramInfo env p inputs = Inr q
        \<and> build env p = Inr a \<and> build env q = Inr b \<longrightarrow>
      run env s inputs =
        (execute env [a, b] inputs, s\<lparr>artifacts := Some [a, b], builds := builds s @ [p, q]\<rparr>))
   \<and> (\<forall>as. artifacts s = Some as \<longrightarrow> run env s inputs = (execute env as inputs, s))"
  using run_first_artifacts [of env s inputs] run_first_builds [of env s inputs]
    runs_built [of "snd (run env s inputs)" env rest]
    run_first_success [of s env inputs p q a b] run_built [of s _ env inputs]
  by simp

theorem run_builds_once_witness:
  "run run_demo \<lparr>artifacts = None, builds = []\<rparr> 7 =
     (Inr 8, \<lparr>artifacts = Some [''built im2col'', ''built dot''], builds = [''im2col'', ''dot'']\<rparr>)
   \<and> runs run_demo \<lparr>artifacts = None, builds = []\<rparr> [7, 8, 9] =
       \<lparr>artifacts = Some [''built im2col'', ''built dot''], builds = [''im2col'', ''dot'']\<rparr>
   \<and> run run_demo \<lparr>artifacts = Some [''built im2col'', ''built dot''], builds = [''im2col'', ''dot'']\<rparr> 8 =
     (Inr 9, \<lparr>artifacts = Some [''built im2col'', ''built dot''], builds = [''im2col'', ''dot'']\<rparr>)"
proof -
  let ?s0 = "\<lparr>artifacts = None, builds = []\<rparr> :: (string, string) conv_state"
  let ?s2 = "\<lparr>artifacts = Some [''built im2col'', ''built dot''], builds = [''im2col'', ''dot'']\<rparr>"
  note first = run_builds_once [of ?s0 run_demo 7 "[8, 9]"
      "''im2col''" "''dot''" "''built im2col''" "''built dot''"]
  have r1: "run run_demo ?s0 7 = (Inr 8, ?s2)"
    using first by (simp add: run_demo_def)
  have r2: "runs run_demo ?s0 [7, 8, 9] = snd (run run_demo ?s0 7)"
    using first by simp
  have r3: "run run_demo ?s2 8 = (Inr 9, ?s2)"
    using run_builds_once [of ?s2 run_demo 8 "[]"] by (simp add: run_demo_def)
  show ?thesis
    using r1 r2 r3 by simp
qed

subsection \<open>prepKernelForDotProduct\<close>


lemma nth_splice:
  assumes "off + length src \<le> length xs" and "p < length xs"
  shows "(take off xs @ src @ drop (off + length src) xs) ! p =
           (if p < off then xs ! p else if p < off + length src then src ! (p - off) else xs ! p)"
  using assms by (auto simp: nth_append min_def)

lemma length_splice:
  "off + length src \<le> length xs \<Longrightarrow>
     length (take off xs @ src @ drop (off + length src) xs) = length xs"
  by simp

























lemma less_mult_pos: "p < n * (m :: nat) \<Longrightarrow> 0 < m"
  by (cases m) simp_all





subsection \<open>The im2col shader\<close>

lemma im2col_body_spec:
  assumes "0 \<le> b" and "b < int (XN c)"
  shows "im2col_body c X b oh ow i patch v =
         Inr (let patchC = patch div (KH c * KW c);
                  patchH = (patch mod (KH c * KW c)) div KW c;
                  patchW = (patch mod (KH c * KW c)) mod KW c;
                  xh2 = oh + int patchH * dilationH c;
                  xw2 = ow + int patchW * dilationW c
              in if patch < XC c * (KH c * KW c)
                    \<and> 0 \<le> xh2 \<and> xh2 < int (XH c) \<and> 0 \<le> xw2 \<and> xw2 < int (XW c)
                 then v[i := X [b, int patchC, xh2, xw2]] else v)"
proof (cases "patch < XC c * (KH c * KW c)")
  case False
  then show ?thesis
    by (simp add: im2col_body_def XCKHKW_def KHKW_def Let_def)
next
  case True
  then have kk: "0 < KH c * KW c"
    by (rule less_mult_pos)
  then have kw: "0 < KW c"
    by simp
  have pc: "patch div (KH c * KW c) < XC c"
    using True kk by (simp add: less_mult_imp_div_less)
  have m1: "patch - patch div (KH c * KW c) * (KH c * KW c) = patch mod (KH c * KW c)"
    by (simp add: minus_div_mult_eq_mod)
  have m2: "patch mod (KH c * KW c) - patch mod (KH c * KW c) div KW c * KW c
              = patch mod (KH c * KW c) mod KW c"
    by (simp add: minus_div_mult_eq_mod)
  show ?thesis
    using True kk kw pc assms
    by (simp add: im2col_body_def XCKHKW_def KHKW_def glsl_div_def Let_def m1 m2 X_read_def)
qed


lemma im2col_body_texel:
  assumes "0 \<le> b" and "b < int (XN c)" and "i < length v"
  shows "im2col_body c X b oh ow i patch v
           = Inr (v[i := im2col_texel c X b oh ow patch (v ! i)])"
  using assms(3)
  by (simp add: im2col_body_spec [OF assms(1,2)] im2col_texel_def Let_def)

lemma im2col_loop_spec:
  assumes b: "0 \<le> b" "b < int (XN c)"
  shows "i \<le> 4 \<Longrightarrow> length v = 4 \<Longrightarrow>
         im2col_loop c X b oh ow i (p0 + i, v) =
           Inr (map (\<lambda>j. if j < i then v ! j else im2col_texel c X b oh ow (p0 + j) (v ! j))
                  [0..<4])"
proof (induction "4 - i" arbitrary: i v)
  case 0
  then have i: "i = 4" by simp
  have "map (\<lambda>j. if j < 4 then v ! j else im2col_texel c X b oh ow (p0 + j) (v ! j)) [0..<4]
          = map (\<lambda>j. v ! j) [0..<4]"
    by (rule map_cong) simp_all
  also have "\<dots> = v"
    using 0(3) by (metis map_nth)
  finally show ?case
    using i by (subst im2col_loop.simps) (simp add: outputChannels_def)
next
  case (Suc d)
  then have i: "i < 4" by simp
  let ?v1 = "v[i := im2col_texel c X b oh ow (p0 + i) (v ! i)]"
  have step: "im2col_loop c X b oh ow i (p0 + i, v)
                = im2col_loop c X b oh ow (i + 1) (p0 + (i + 1), ?v1)"
    using i Suc.prems(2) im2col_body_texel [OF b, of i v X oh ow "p0 + i"]
    by (subst im2col_loop.simps) (simp add: outputChannels_def)
  have "d = 4 - (i + 1)" and "i + 1 \<le> 4" and "length ?v1 = 4"
    using Suc.hyps(2) i Suc.prems(2) by simp_all
  from Suc.hyps(1) [OF this]
  have ih: "im2col_loop c X b oh ow (i + 1) (p0 + (i + 1), ?v1) =
              Inr (map (\<lambda>j. if j < i + 1 then ?v1 ! j
                            else im2col_texel c X b oh ow (p0 + j) (?v1 ! j)) [0..<4])" .
  have "map (\<lambda>j. if j < i + 1 then ?v1 ! j
                  else im2col_texel c X b oh ow (p0 + j) (?v1 ! j)) [0..<4]
          = map (\<lambda>j. if j < i then v ! j
                  else im2col_texel c X b oh ow (p0 + j) (v ! j)) [0..<4]"
  proof (rule map_cong [OF refl])
    fix j assume "j \<in> set [0..<4]"
    then have j: "j < 4" by simp
    show "(if j < i + 1 then ?v1 ! j else im2col_texel c X b oh ow (p0 + j) (?v1 ! j))
            = (if j < i then v ! j else im2col_texel c X b oh ow (p0 + j) (v ! j))"
      using j i Suc.prems(2) by (cases "j = i") (auto simp: nth_list_update)
  qed
  with step ih show ?case
    by simp
qed

text \<open>
  Claim C5. For an output position whose batch index lies in the input, the shader
  returns normally, so it divides by no 0 and reads the input at no coordinate
  outside its shape, and channel \<open>i\<close> of the result, for the patch index
  \<open>indices[3] * 4 + i\<close>, is the input element at the coordinate derived from stride,
  dilation and pad when the patch index is below \<open>XC * KH * KW\<close> and the coordinate
  lies in \<open>[0, XH) \<times> [0, XW)\<close>, and 0 otherwise.
\<close>

theorem im2col_process_spec:
  fixes X :: "int list \<Rightarrow> 'a::zero"
  assumes "i0 < XN c"
  shows "im2col_process c X (i0, i1, i2, i3) =
         Inr (map (\<lambda>i. let patch = i3 * 4 + i;
                           patchC = patch div (KH c * KW c);
                           patchH = (patch mod (KH c * KW c)) div KW c;
                           patchW = (patch mod (KH c * KW c)) mod KW c;
                           xh2 = int i1 * strideH c - padH c + int patchH * dilationH c;
                           xw2 = int i2 * strideW c - padW c + int patchW * dilationW c
                       in if patch < XC c * KH c * KW c
                             \<and> 0 \<le> xh2 \<and> xh2 < int (XH c) \<and> 0 \<le> xw2 \<and> xw2 < int (XW c)
                          then X [int i0, int patchC, xh2, xw2] else 0)
                [0..<4])"
proof -
  have b: "0 \<le> int i0" "int i0 < int (XN c)"
    using assms by simp_all
  have "im2col_process c X (i0, i1, i2, i3) =
          im2col_loop c X (int i0) (int i1 * strideH c - padH c) (int i2 * strideW c - padW c) 0
            (i3 * 4 + 0, replicate 4 0)"
    by (simp add: im2col_process_def outputChannels_def Let_def)
  also have "\<dots> = Inr (map (\<lambda>j. if j < 0 then replicate 4 (0 :: 'a) ! j
              else im2col_texel c X (int i0) (int i1 * strideH c - padH c)
                     (int i2 * strideW c - padW c) (i3 * 4 + j) (replicate 4 (0 :: 'a) ! j)) [0..<4])"
    by (rule im2col_loop_spec [OF b]) simp_all
  also have "map (\<lambda>j. if j < 0 then replicate 4 (0 :: 'a) ! j
              else im2col_texel c X (int i0) (int i1 * strideH c - padH c)
                     (int i2 * strideW c - padW c) (i3 * 4 + j) (replicate 4 (0 :: 'a) ! j)) [0..<4]
      = map (\<lambda>i. let patch = i3 * 4 + i;
                           patchC = patch div (KH c * KW c);
                           patchH = (patch mod (KH c * KW c)) div KW c;
                           patchW = (patch mod (KH c * KW c)) mod KW c;
                           xh2 = int i1 * strideH c - padH c + int patchH * dilationH c;
                           xw2 = int i2 * strideW c - padW c + int patchW * dilationW c
                       in if patch < XC c * KH c * KW c
                             \<and> 0 \<le> xh2 \<and> xh2 < int (XH c) \<and> 0 \<le> xw2 \<and> xw2 < int (XW c)
                          then X [int i0, int patchC, xh2, xw2] else 0)
                [0..<4]"
    by (rule map_cong [OF refl]) (simp add: im2col_texel_def Let_def mult.assoc)
  finally show ?thesis .
qed

theorem im2col_process_spec_witness:
  "im2col_process im2col_demo (\<lambda>x. 10 * x ! 2 + x ! 3 + 1) (0, 1, 1, 0) = Inr [1, 2, 11, 12 :: int]
   \<and> im2col_process im2col_demo (\<lambda>x. 10 * x ! 2 + x ! 3 + 1) (0, 0, 0, 0) = Inr [0, 0, 0, 1 :: int]
   \<and> im2col_process im2col_demo (\<lambda>x. 10 * x ! 2 + x ! 3 + 1) (0, 1, 1, 1) = Inr [0, 0, 0, 0 :: int]"
proof -
  have u: "[0..<4] = [0, 1, 2, 3]"
    by (simp add: upt_rec)
  show ?thesis
    using im2col_process_spec [of 0 im2col_demo "\<lambda>x. 10 * x ! 2 + x ! 3 + 1" 1 1 0]
      im2col_process_spec [of 0 im2col_demo "\<lambda>x. 10 * x ! 2 + x ! 3 + 1" 0 0 0]
      im2col_process_spec [of 0 im2col_demo "\<lambda>x. 10 * x ! 2 + x ! 3 + 1" 1 1 1]
    by (simp add: u im2col_demo_def Let_def)
qed

subsection \<open>The chunked dot product\<close>

lemma dot_loop_sum:
  "dot_loop t n i (io, ko, acc) =
     acc + (\<Sum>j<n - i. dot (Im2Col t (io + j)) (K t (ko + j)))"
proof (induction "n - i" arbitrary: i io ko acc)
  case 0
  then show ?case
    by (subst dot_loop.simps) simp
next
  case (Suc d)
  then have i: "i < n" and d: "d = n - (i + 1)" and n: "n - i = Suc (n - (i + 1))"
    by simp_all
  have "dot_loop t n i (io, ko, acc) =
          dot_loop t n (i + 1) (io + 1, ko + 1, acc + dot (Im2Col t io) (K t ko))"
    using i by (subst dot_loop.simps) simp
  also have "\<dots> = acc + dot (Im2Col t io) (K t ko)
                + (\<Sum>j<n - (i + 1). dot (Im2Col t (io + 1 + j)) (K t (ko + 1 + j)))"
    by (rule Suc.hyps(1) [OF d])
  also have "\<dots> = acc + (\<Sum>j<Suc (n - (i + 1)). dot (Im2Col t (io + j)) (K t (ko + j)))"
    by (simp add: sum.lessThan_Suc_shift add.assoc del: sum.lessThan_Suc)
  finally show ?case
    by (simp only: n)
qed

lemma dot_process_sum:
  "dot_process c t off (i0, i1, i2, i3) =
     (if off = 0 then initValue t i1 else 0)
     + (\<Sum>j<sharedDimReadSize c. term_at c t (i0, i1, i2, i3) (off + j))"
  by (simp add: dot_process_def Let_def dot_loop_sum term_at_def add.assoc)


lemma gl_draw_blend:
  "BLEND s \<Longrightarrow>
     BLEND (gl_draw c t (s\<lparr>sharedDimOffset := k\<rparr>))
     \<and> framebuffer (gl_draw c t (s\<lparr>sharedDimOffset := k\<rparr>))
         = (\<lambda>indices. dot_process c t k indices + framebuffer s indices)"
  by (simp add: gl_draw_def)

lemma draw_loop_chunks:
  assumes rs: "0 < sharedDimReadSize c" and sd: "sharedDim c = m * sharedDimReadSize c"
  shows "j \<le> m \<Longrightarrow> BLEND s \<Longrightarrow>
         \<exists>s'. draw_loop c t (j * sharedDimReadSize c) s = Some s' \<and> BLEND s'
              \<and> framebuffer s' =
                  (\<lambda>indices. (\<Sum>l = j..<m. dot_process c t (l * sharedDimReadSize c) indices)
                               + framebuffer s indices)"
proof (induction "m - j" arbitrary: j s)
  case 0
  then have "j = m" by simp
  then have "draw_loop c t (j * sharedDimReadSize c) s = Some s"
    using sd by (subst draw_loop.simps) simp
  with 0 \<open>j = m\<close> show ?case
    by simp
next
  case (Suc d)
  then have j: "j < m" by simp
  let ?rs = "sharedDimReadSize c"
  let ?s1 = "gl_draw c t (s\<lparr>sharedDimOffset := j * ?rs\<rparr>)"
  have "j * ?rs < m * ?rs"
    using j rs by simp
  then have step: "draw_loop c t (j * ?rs) s = draw_loop c t ((j + 1) * ?rs) ?s1"
    using sd by (subst draw_loop.simps) (simp add: add.commute)
  note g = gl_draw_blend [OF Suc.prems(2), of c t "j * ?rs"]
  have "d = m - (j + 1)" and "j + 1 \<le> m"
    using Suc.hyps(2) j by simp_all
  from Suc.hyps(1) [OF this g [THEN conjunct1]]
  obtain s' where r: "draw_loop c t ((j + 1) * ?rs) ?s1 = Some s'" and b: "BLEND s'"
    and f: "framebuffer s' =
              (\<lambda>indices. (\<Sum>l = j + 1..<m. dot_process c t (l * ?rs) indices)
                           + framebuffer ?s1 indices)"
    by (elim exE conjE)
  have "framebuffer s' =
          (\<lambda>indices. (\<Sum>l = j..<m. dot_process c t (l * ?rs) indices) + framebuffer s indices)"
  proof
    fix indices
    have "(\<Sum>l = j..<m. dot_process c t (l * ?rs) indices)
            = dot_process c t (j * ?rs) indices
              + (\<Sum>l = Suc j..<m. dot_process c t (l * ?rs) indices)"
      using j by (rule sum.atLeast_Suc_lessThan)
    then show "framebuffer s' indices =
            (\<Sum>l = j..<m. dot_process c t (l * ?rs) indices) + framebuffer s indices"
      by (simp add: f g [THEN conjunct2])
  qed
  with step r b show ?case
    by simp
qed

lemma chunk_sum:
  fixes f :: "nat \<Rightarrow> rat" and rs m :: nat
  shows "(\<Sum>l<m. \<Sum>i<rs. f (l * rs + i)) = (\<Sum>i<m * rs. f i)"
proof -
  have "(\<Sum>i<rs. f (l * rs + i)) = sum f {l * rs..<l * rs + rs}" for l
    using sum.shift_bounds_nat_ivl [of f 0 "l * rs" rs]
    by (simp add: lessThan_atLeast0 add.commute)
  then show ?thesis
    by (simp add: sum.nat_group)
qed

lemma seed_sum:
  fixes v :: rat and rs m :: nat
  assumes "0 < rs" and "0 < m"
  shows "(\<Sum>l<m. if l * rs = 0 then v else 0) = v"
proof -
  have "(\<Sum>l<m. if l * rs = 0 then v else 0) = (\<Sum>l<m. if l = 0 then v else 0)"
  proof (rule sum.cong [OF refl])
    fix l
    show "(if l * rs = 0 then v else 0) = (if l = 0 then v else 0)"
      using assms(1) by simp
  qed
  also have "\<dots> = v"
    using assms(2) by (simp add: sum.delta)
  finally show ?thesis .
qed


lemma chunks_total:
  assumes rs: "0 < sharedDimReadSize c" and m: "0 < m"
  shows "(\<Sum>l<m. dot_process c t (l * sharedDimReadSize c) (i0, i1, i2, i3))
           = initValue t i1 + (\<Sum>i<m * sharedDimReadSize c. term_at c t (i0, i1, i2, i3) i)"
proof -
  let ?rs = "sharedDimReadSize c"
  have "(\<Sum>l<m. dot_process c t (l * ?rs) (i0, i1, i2, i3))
          = (\<Sum>l<m. (if l * ?rs = 0 then initValue t i1 else 0)
                      + (\<Sum>j<?rs. term_at c t (i0, i1, i2, i3) (l * ?rs + j)))"
    by (simp only: dot_process_sum)
  also have "\<dots> = (\<Sum>l<m. if l * ?rs = 0 then initValue t i1 else 0)
                  + (\<Sum>l<m. \<Sum>j<?rs. term_at c t (i0, i1, i2, i3) (l * ?rs + j))"
    by (rule sum.distrib)
  also have "\<dots> = initValue t i1 + (\<Sum>i<m * ?rs. term_at c t (i0, i1, i2, i3) i)"
    by (simp only: seed_sum [OF rs m] chunk_sum)
  finally show ?thesis .
qed

text \<open>
  Claim C2. For a shared dimension of at least 1 and a read size that divides it, with
  blending enabled and a cleared output texture: the draw call at offset \<open>k\<close> computes
  the bias (0 without a bias tensor) when \<open>k = 0\<close> and 0 otherwise, plus the terms \<open>k\<close> to
  \<open>k + readSize - 1\<close>; and the draw loop ends with every output position holding the
  bias plus the sum of all terms below \<open>sharedDim\<close>, the unchunked dot product.
\<close>

theorem draw_chunked_sum:
  assumes sd: "1 \<le> sharedDim c" and dv: "sharedDimReadSize c dvd sharedDim c"
    and bl: "BLEND s" and zero: "\<forall>indices. framebuffer s indices = 0"
  shows "(\<forall>k i0 i1 i2 i3.
            dot_process c t k (i0, i1, i2, i3) =
              (if k = 0 then (case B t of None \<Rightarrow> 0 | Some bias \<Rightarrow> bias i1) else 0)
              + (\<Sum>i = k..<k + sharedDimReadSize c.
                   dot (Im2Col t (i0 * im2colStride0 c + i2 * im2colStride1 c
                                   + i3 * im2colStride2 c + i))
                       (K t (i1 * kStride0 c + i))))
         \<and> (\<exists>s'. draw c t s = Some s'
                \<and> (\<forall>i0 i1 i2 i3.
                      framebuffer s' (i0, i1, i2, i3) =
                        (case B t of None \<Rightarrow> 0 | Some bias \<Rightarrow> bias i1)
                        + (\<Sum>i<sharedDim c.
                             dot (Im2Col t (i0 * im2colStride0 c + i2 * im2colStride1 c
                                             + i3 * im2colStride2 c + i))
                                 (K t (i1 * kStride0 c + i)))))"
proof
  let ?rs = "sharedDimReadSize c"
  show "\<forall>k i0 i1 i2 i3.
          dot_process c t k (i0, i1, i2, i3) =
            (if k = 0 then (case B t of None \<Rightarrow> 0 | Some bias \<Rightarrow> bias i1) else 0)
            + (\<Sum>i = k..<k + ?rs.
                 dot (Im2Col t (i0 * im2colStride0 c + i2 * im2colStride1 c
                                 + i3 * im2colStride2 c + i))
                     (K t (i1 * kStride0 c + i)))"
  proof (intro allI)
    fix k i0 i1 i2 i3
    have "(\<Sum>j<?rs. term_at c t (i0, i1, i2, i3) (k + j))
            = sum (term_at c t (i0, i1, i2, i3)) {k..<k + ?rs}"
      using sum.shift_bounds_nat_ivl [of "term_at c t (i0, i1, i2, i3)" 0 k ?rs]
      by (simp add: lessThan_atLeast0 add.commute)
    then show "dot_process c t k (i0, i1, i2, i3) =
            (if k = 0 then (case B t of None \<Rightarrow> 0 | Some bias \<Rightarrow> bias i1) else 0)
            + (\<Sum>i = k..<k + ?rs.
                 dot (Im2Col t (i0 * im2colStride0 c + i2 * im2colStride1 c
                                 + i3 * im2colStride2 c + i))
                     (K t (i1 * kStride0 c + i)))"
      by (simp add: dot_process_sum initValue_def term_at_def)
  qed
next
  let ?rs = "sharedDimReadSize c"
  from dv obtain m where m: "sharedDim c = m * ?rs"
    by (auto simp: dvd_def mult.commute)
  have rs: "0 < ?rs"
    using sd m by (cases "?rs = 0") simp_all
  have mp: "0 < m"
    using sd m by (cases "m = 0") simp_all
  from draw_loop_chunks [OF rs m, of 0 s t] bl
  obtain s' where r: "draw_loop c t 0 s = Some s'"
    and f: "framebuffer s' =
              (\<lambda>indices. (\<Sum>l = 0..<m. dot_process c t (l * ?rs) indices)
                           + framebuffer s indices)"
    by auto
  have "framebuffer s' (i0, i1, i2, i3) =
          (case B t of None \<Rightarrow> 0 | Some bias \<Rightarrow> bias i1)
          + (\<Sum>i<sharedDim c.
               dot (Im2Col t (i0 * im2colStride0 c + i2 * im2colStride1 c
                               + i3 * im2colStride2 c + i))
                   (K t (i1 * kStride0 c + i)))" for i0 i1 i2 i3
  proof -
    have "framebuffer s' (i0, i1, i2, i3)
            = (\<Sum>l<m. dot_process c t (l * ?rs) (i0, i1, i2, i3))"
      using zero by (simp add: f lessThan_atLeast0)
    also have "\<dots> = initValue t i1 + (\<Sum>i<m * ?rs. term_at c t (i0, i1, i2, i3) i)"
      by (rule chunks_total [OF rs mp])
    finally show ?thesis
      by (simp add: m initValue_def term_at_def)
  qed
  with r show "\<exists>s'. draw c t s = Some s'
                \<and> (\<forall>i0 i1 i2 i3.
                      framebuffer s' (i0, i1, i2, i3) =
                        (case B t of None \<Rightarrow> 0 | Some bias \<Rightarrow> bias i1)
                        + (\<Sum>i<sharedDim c.
                             dot (Im2Col t (i0 * im2colStride0 c + i2 * im2colStride1 c
                                             + i3 * im2colStride2 c + i))
                                 (K t (i1 * kStride0 c + i))))"
    by (simp add: draw_def)
qed


theorem draw_chunked_sum_witness:
  "(\<exists>s'. draw dot_demo tex_demo (preRun gl_demo) = Some s' \<and> framebuffer s' (0, 0, 0, 0) = 17)
   \<and> (\<exists>s'. draw (dot_demo\<lparr>sharedDim := 32, sharedDimReadSize := calcSharedDimReadSize 32\<rparr>)
               tex_ones (preRun gl_demo) = Some s'
           \<and> framebuffer s' (0, 0, 0, 0) = 32)"
proof -
  have bl: "BLEND (preRun gl_demo)"
    by (simp add: preRun_def)
  have zero: "\<forall>indices. framebuffer (preRun gl_demo) indices = 0"
    by (simp add: preRun_def gl_demo_def)
  have sd1: "1 \<le> sharedDim dot_demo" and dv1: "sharedDimReadSize dot_demo dvd sharedDim dot_demo"
    by (simp_all add: dot_demo_def)
  from draw_chunked_sum [OF sd1 dv1 bl zero, of tex_demo, THEN conjunct2]
  obtain s1 where r1: "draw dot_demo tex_demo (preRun gl_demo) = Some s1"
    and f1: "\<forall>i0 i1 i2 i3. framebuffer s1 (i0, i1, i2, i3) =
               (case B tex_demo of None \<Rightarrow> 0 | Some bias \<Rightarrow> bias i1)
               + (\<Sum>i<sharedDim dot_demo.
                    dot (Im2Col tex_demo (i0 * im2colStride0 dot_demo + i2 * im2colStride1 dot_demo
                                           + i3 * im2colStride2 dot_demo + i))
                        (K tex_demo (i1 * kStride0 dot_demo + i)))"
    by (elim exE conjE)
  have v1: "framebuffer s1 (0, 0, 0, 0) = 17"
    using f1 [rule_format, of 0 0 0 0]
    by (simp add: dot_demo_def tex_demo_def eval_nat_numeral)
  let ?c = "dot_demo\<lparr>sharedDim := 32, sharedDimReadSize := calcSharedDimReadSize 32\<rparr>"
  have sd2: "1 \<le> sharedDim ?c" and dv2: "sharedDimReadSize ?c dvd sharedDim ?c"
    by (simp_all add: calcSharedDimReadSize_dvd)
  from draw_chunked_sum [OF sd2 dv2 bl zero, of tex_ones, THEN conjunct2]
  obtain s2 where r2: "draw ?c tex_ones (preRun gl_demo) = Some s2"
    and f2: "\<forall>i0 i1 i2 i3. framebuffer s2 (i0, i1, i2, i3) =
               (case B tex_ones of None \<Rightarrow> 0 | Some bias \<Rightarrow> bias i1)
               + (\<Sum>i<sharedDim ?c.
                    dot (Im2Col tex_ones (i0 * im2colStride0 ?c + i2 * im2colStride1 ?c
                                           + i3 * im2colStride2 ?c + i))
                        (K tex_ones (i1 * kStride0 ?c + i)))"
    by (elim exE conjE)
  have v2: "framebuffer s2 (0, 0, 0, 0) = 32"
    using f2 [rule_format, of 0 0 0 0]
    by (simp add: tex_ones_def)
  from r1 v1 r2 v2 show ?thesis
    by simp
qed

end
